theory Spec2Isabelle
  imports Main "HOL-Library.AList"
begin

section \<open>JavaScript values, objects and the store\<close>

text \<open>
  The validator of \<^verbatim>\<open>src/ParameterValidator.js\<close> works on untyped JavaScript values.
  A value is a primitive, an array (a value here: the arrays of a call are the list of
  requirements and the groups of names, which \<^verbatim>\<open>validate\<close> only reads), a function, a
  reference to an object held in the store, or an object of the runtime that is not in
  the store (\<open>Host\<close>: a prototype object such as \<^verbatim>\<open>Object.prototype\<close>).
  Objects live in a store because \<^verbatim>\<open>validate\<close> writes to the extraction target with
  \<^verbatim>\<open>Object.assign\<close>, and the target may be the very object the parameters are read from.

  A number is an integer (\<open>Num\<close>), \<^verbatim>\<open>NaN\<close>, or a number that is no integer (\<open>NonInt\<close>: a
  fraction or an infinity, told apart by an index).
\<close>

type_synonym addr = nat

datatype fn = IsDefined | User nat

datatype jsval =
    Undefined
  | Null
  | Bool bool
  | Num int
  | NaN
  | NonInt nat
  | Str string
  | Arr "jsval list"
  | Fun fn
  | Ref addr
  | Host nat

text \<open>
  An object of the store has its own enumerable data properties, in the order
  \<^verbatim>\<open>Object.keys\<close> lists them; the properties a read finds beyond those, on the prototype
  chain (\<open>inherited\<close>: for an object literal the properties of \<^verbatim>\<open>Object.prototype\<close>, such as
  \<^verbatim>\<open>toString\<close>); and the names whose assignment runs a setter, of the object or of its
  prototype chain, each with the index of the setter (for an object literal the one
  name \<^verbatim>\<open>__proto__\<close>). The store is the list of all objects; an address is an index into
  it, and a new object is allocated at the end. The prototype objects themselves are not
  in the store, so the target of a call is never one of them.
\<close>

type_synonym props = "(string \<times> jsval) list"

record obj =
  own :: props
  inherited :: props
  setters :: "(string \<times> nat) list"

type_synonym heap = "obj list"

definition no_object :: obj where
  "no_object = \<lparr>own = [], inherited = [], setters = []\<rparr>"

definition obj_at :: "heap \<Rightarrow> addr \<Rightarrow> obj" where
  "obj_at h a = (if a < length h then h ! a else no_object)"

text \<open>
  The three errors the code can raise: its own \<^verbatim>\<open>ParameterValidationError\<close>, a plain
  \<^verbatim>\<open>Error\<close>, and the \<^verbatim>\<open>TypeError\<close> of the runtime. \<open>error_name\<close> is the \<^verbatim>\<open>name\<close>
  property, which the constructor of \<^verbatim>\<open>ParameterValidationError\<close> sets to its class name.
\<close>

datatype js_error =
    ParameterValidationError string
  | Error string
  | TypeError

fun error_name :: "js_error \<Rightarrow> string" where
  "error_name (ParameterValidationError m) = ''ParameterValidationError''"
| "error_name (Error m) = ''Error''"
| "error_name TypeError = ''TypeError''"

text \<open>
  What a promise is rejected with: an error that was raised, or any value handed to
  \<^verbatim>\<open>reject\<close>. What the \<^verbatim>\<open>then\<close> method of a thenable does with the two functions it is
  called with: it calls \<^verbatim>\<open>resolve\<close> first, it calls \<^verbatim>\<open>reject\<close> first (or raises before it
  has called either), or it calls neither while it runs.
\<close>

datatype reason = Raised js_error | Reason jsval

datatype then_effect =
    ThenResolves jsval
  | ThenRejects reason
  | ThenSilent

text \<open>
  Everything the code takes from its caller and from the runtime is given by an
  environment:
  \<^item> \<open>fn_call\<close>, what a function of the caller returns on a value (a validation function is
    pure and total), and \<open>fn_src\<close>, the text \<^verbatim>\<open>String(f)\<close> yields;
  \<^item> \<open>obj_str\<close>, the text \<^verbatim>\<open>String(o)\<close> yields for an object (\<^verbatim>\<open>[object Object]\<close> unless the
    object overrides \<^verbatim>\<open>toString\<close>), and \<open>num_str\<close>, the text of a number that is not printed
    digit by digit: a number that is no integer, and an integer beyond \<open>2^53\<close>;
  \<^item> \<open>prim_get\<close>, what a read finds on the prototype chain of a value that is no object of
    the store (an array, a string, a number, a boolean, a function, a host object);
  \<^item> \<open>proto_props\<close> and \<open>proto_setter\<close>, the inherited properties of an object literal and
    the index of the setter of \<^verbatim>\<open>__proto__\<close>;
  \<^item> \<open>setter_run\<close>, what setter \<open>i\<close> does when it is run on the object at an address with
    a value: the error it raises, if any, and the store it leaves;
  \<^item> \<open>then_run\<close>, what a function does when promise resolution calls it as the \<^verbatim>\<open>then\<close>
    of a thenable, and the store it leaves.
\<close>

record env =
  fn_call :: "nat \<Rightarrow> jsval \<Rightarrow> jsval"
  fn_src :: "fn \<Rightarrow> string"
  obj_str :: "jsval \<Rightarrow> string"
  num_str :: "jsval \<Rightarrow> string"
  prim_get :: "jsval \<Rightarrow> string \<Rightarrow> jsval"
  proto_props :: props
  proto_setter :: nat
  setter_run :: "nat \<Rightarrow> addr \<Rightarrow> jsval \<Rightarrow> heap \<Rightarrow> js_error option \<times> heap"
  then_run :: "fn \<Rightarrow> jsval \<Rightarrow> heap \<Rightarrow> then_effect \<times> heap"

text \<open>
  What the model leaves out: getters with an effect (a read is pure), symbols, frozen
  objects and properties that are not writable (an accessor without a setter among
  them), own properties that are not enumerable or that are accessors (the setters of an
  object are those of its class), and string conversions that raise.
\<close>

subsection \<open>Primitive operations of the language\<close>

fun truthy :: "jsval \<Rightarrow> bool" where
  "truthy Undefined = False"
| "truthy Null = False"
| "truthy (Bool b) = b"
| "truthy (Num n) = (n \<noteq> 0)"
| "truthy NaN = False"
| "truthy (NonInt i) = True"
| "truthy (Str s) = (s \<noteq> [])"
| "truthy (Arr xs) = True"
| "truthy (Fun f) = True"
| "truthy (Ref a) = True"
| "truthy (Host i) = True"

fun typeOf :: "jsval \<Rightarrow> string" where
  "typeOf Undefined = ''undefined''"
| "typeOf Null = ''object''"
| "typeOf (Bool b) = ''boolean''"
| "typeOf (Num n) = ''number''"
| "typeOf NaN = ''number''"
| "typeOf (NonInt i) = ''number''"
| "typeOf (Str s) = ''string''"
| "typeOf (Arr xs) = ''object''"
| "typeOf (Fun f) = ''function''"
| "typeOf (Ref a) = ''object''"
| "typeOf (Host i) = ''object''"

fun isArray :: "jsval \<Rightarrow> bool" where
  "isArray (Arr xs) = True"
| "isArray v = False"

definition quote :: string where
  "quote = [CHR 0x27]"

definition digit_chars :: string where
  "digit_chars = ''0123456789''"

fun nat_to_dec :: "nat \<Rightarrow> string" where
  "nat_to_dec n =
     (if n < 10 then [digit_chars ! n]
      else nat_to_dec (n div 10) @ [digit_chars ! (n mod 10)])"

declare nat_to_dec.simps [simp del]

definition dec_to_nat :: "string \<Rightarrow> nat" where
  "dec_to_nat s = foldl (\<lambda>n c. 10 * n + length (takeWhile (\<lambda>d. d \<noteq> c) digit_chars)) 0 s"

text \<open>
  An array index is a property name that is the canonical decimal form of an integer
  below \<open>2^32 - 1\<close>. Such names are enumerated first, in ascending order.
\<close>

definition array_index :: "string \<Rightarrow> nat option" where
  "array_index k =
     (let n = dec_to_nat k
      in if nat_to_dec n = k \<and> n < 4294967295 then Some n else None)"

fun join :: "string \<Rightarrow> string list \<Rightarrow> string" where
  "join sep [] = []"
| "join sep [x] = x"
| "join sep (x # y # ys) = x @ sep @ join sep (y # ys)"

text \<open>
  String conversion, as a template literal and a property access apply it. An integer up
  to \<open>2^53\<close> in absolute value is printed in plain decimal; beyond it JavaScript prints
  the shortest digits that identify the number, and from \<open>10^21\<close> on the exponent form,
  which the environment gives.
\<close>

fun toStr :: "env \<Rightarrow> jsval \<Rightarrow> string" where
  "toStr E Undefined = ''undefined''"
| "toStr E Null = ''null''"
| "toStr E (Bool b) = (if b then ''true'' else ''false'')"
| "toStr E (Num n) =
     (if \<bar>n\<bar> \<le> 9007199254740992
      then (if n < 0 then ''-'' @ nat_to_dec (nat (- n)) else nat_to_dec (nat n))
      else num_str E (Num n))"
| "toStr E NaN = ''NaN''"
| "toStr E (NonInt i) = num_str E (NonInt i)"
| "toStr E (Str s) = s"
| "toStr E (Arr xs) =
     join '','' (map (\<lambda>x. case x of Undefined \<Rightarrow> [] | Null \<Rightarrow> [] | _ \<Rightarrow> toStr E x) xs)"
| "toStr E (Fun f) = fn_src E f"
| "toStr E (Ref a) = obj_str E (Ref a)"
| "toStr E (Host i) = obj_str E (Host i)"

text \<open>
  Reading a property \<^verbatim>\<open>v[k]\<close> of a value that is neither \<^verbatim>\<open>undefined\<close> nor \<^verbatim>\<open>null\<close>
  (the code reads no property of those: it tests \<^verbatim>\<open>paramsProvided\<close> and \<^verbatim>\<open>options\<close>
  for truth first, and \<^verbatim>\<open>Object.keys\<close> raises on \<^verbatim>\<open>null\<close> before the rule is read). An own
  property is found first, then the prototype chain.
\<close>

definition getProp :: "env \<Rightarrow> heap \<Rightarrow> jsval \<Rightarrow> string \<Rightarrow> jsval" where
  "getProp E h v k =
     (case v of
        Undefined \<Rightarrow> Undefined
      | Null \<Rightarrow> Undefined
      | Ref a \<Rightarrow>
          (case map_of (own (obj_at h a)) k of
             Some x \<Rightarrow> x
           | None \<Rightarrow> (case map_of (inherited (obj_at h a)) k of
                        Some x \<Rightarrow> x
                      | None \<Rightarrow> Undefined))
      | Arr xs \<Rightarrow>
          (if k = ''length'' then Num (int (length xs))
           else case array_index k of
                  Some i \<Rightarrow> (if i < length xs then xs ! i else prim_get E v k)
                | None \<Rightarrow> prim_get E v k)
      | Str s \<Rightarrow>
          (if k = ''length'' then Num (int (length s))
           else case array_index k of
                  Some i \<Rightarrow> (if i < length s then Str [s ! i] else prim_get E v k)
                | None \<Rightarrow> prim_get E v k)
      | _ \<Rightarrow> prim_get E v k)"

text \<open>
  \<^verbatim>\<open>Object.keys(v)\<close>: a \<^verbatim>\<open>TypeError\<close> on \<^verbatim>\<open>undefined\<close> and \<^verbatim>\<open>null\<close>, the own enumerable
  property names otherwise (a prototype object has none).
\<close>

definition objectKeys :: "heap \<Rightarrow> jsval \<Rightarrow> js_error + string list" where
  "objectKeys h v =
     (case v of
        Undefined \<Rightarrow> Inl TypeError
      | Null \<Rightarrow> Inl TypeError
      | Ref a \<Rightarrow> Inr (map fst (own (obj_at h a)))
      | Arr xs \<Rightarrow> Inr (map nat_to_dec [0..<length xs])
      | Str s \<Rightarrow> Inr (map nat_to_dec [0..<length s])
      | _ \<Rightarrow> Inr [])"

text \<open>
  Writing an own data property: an existing property keeps its place; a new one goes
  behind the array indices below it when it is an array index, and to the end otherwise.
\<close>

definition comes_before :: "string \<Rightarrow> string \<Rightarrow> bool" where
  "comes_before k' k =
     (case array_index k of
        None \<Rightarrow> True
      | Some i \<Rightarrow> (case array_index k' of None \<Rightarrow> False | Some j \<Rightarrow> j < i))"

definition set_prop :: "props \<Rightarrow> string \<Rightarrow> jsval \<Rightarrow> props" where
  "set_prop ps k v =
     (if map_of ps k \<noteq> None then AList.update k v ps
      else takeWhile (\<lambda>p. comes_before (fst p) k) ps @ [(k, v)]
           @ dropWhile (\<lambda>p. comes_before (fst p) k) ps)"

text \<open>
  The assignment \<^verbatim>\<open>o[k] = v\<close> on an object of the store: an own data property is written;
  otherwise a setter for the name is run; otherwise the name becomes an own property. On
  an object literal the name \<^verbatim>\<open>__proto__\<close> so reaches the setter of \<^verbatim>\<open>Object.prototype\<close>,
  which makes no own property.
\<close>

definition put :: "env \<Rightarrow> heap \<Rightarrow> addr \<Rightarrow> string \<Rightarrow> jsval \<Rightarrow> js_error option \<times> heap" where
  "put E h t k v =
     (case (map_of (own (obj_at h t)) k, map_of (setters (obj_at h t)) k) of
        (None, Some i) \<Rightarrow> setter_run E i t v h
      | _ \<Rightarrow> (None, h[t := (obj_at h t)\<lparr>own := set_prop (own (obj_at h t)) k v\<rparr>]))"

text \<open>
  \<^verbatim>\<open>Object.assign(target, source)\<close>, given the own properties of the source: each is
  assigned to the target, in order, and the first assignment that raises ends the call
  with the earlier ones done.
\<close>

fun object_assign :: "env \<Rightarrow> heap \<Rightarrow> addr \<Rightarrow> props \<Rightarrow> js_error option \<times> heap" where
  "object_assign E h t [] = (None, h)"
| "object_assign E h t (p # ps) =
     (case put E h t (fst p) (snd p) of
        (Some e, h') \<Rightarrow> (Some e, h')
      | (None, h') \<Rightarrow> object_assign E h' t ps)"

text \<open>
  The object that the literal \<^verbatim>\<open>{}\<close> makes. It is allocated at the end of the store, so
  its address is the length of the store before.
\<close>

definition new_object :: "env \<Rightarrow> obj" where
  "new_object E =
     \<lparr>own = [], inherited = proto_props E, setters = [(''__proto__'', proto_setter E)]\<rparr>"

section \<open>The validator\<close>

subsection \<open>Construction and the default validation\<close>

fun isDefined :: "jsval \<Rightarrow> jsval" where
  "isDefined v = Bool (v \<noteq> Undefined)"

fun call :: "env \<Rightarrow> fn \<Rightarrow> jsval \<Rightarrow> jsval" where
  "call E IsDefined v = isDefined v"
| "call E (User i) v = fn_call E i v"

text \<open>
  The instance holds \<^verbatim>\<open>_defaultValidation\<close>. The constructor lets only \<^verbatim>\<open>undefined\<close> or a
  function into it, so the field is a function or nothing.
\<close>

record validator =
  priv_defaultValidation :: "fn option"

definition new_ParameterValidator :: "env \<Rightarrow> heap \<Rightarrow> jsval \<Rightarrow> js_error + validator" where
  "new_ParameterValidator E h options =
     (if truthy options then
        (let defaultValidation = getProp E h options ''defaultValidation''
         in if \<not> (defaultValidation = Undefined \<or> typeOf defaultValidation = ''function'')
            then Inl (ParameterValidationError
                   ''The optional defaultValidation parameter provided is not a function.'')
            else Inr \<lparr>priv_defaultValidation =
                       (case defaultValidation of Fun f \<Rightarrow> Some f | _ \<Rightarrow> None)\<rparr>)
      else Inr \<lparr>priv_defaultValidation = None\<rparr>)"

text \<open>The getter \<^verbatim>\<open>defaultValidation\<close>: \<^verbatim>\<open>this._defaultValidation || this.isDefined\<close>.\<close>

definition defaultValidation :: "validator \<Rightarrow> fn" where
  "defaultValidation V = (case priv_defaultValidation V of Some f \<Rightarrow> f | None \<Rightarrow> IsDefined)"

subsection \<open>The two rule evaluators\<close>

text \<open>
  Both make a local object \<^verbatim>\<open>extractedParams = {}\<close>, assign to it the parameters that
  pass, and return the pair \<^verbatim>\<open>{errors, params}\<close>: here the messages and the address of the
  local object. The logical-or rule calls the default validation in a condition, so any
  truthy result passes. Its loop over the names is \<open>logicalOr_loop\<close>; it ends with an error
  only when an assignment raises.
\<close>

fun logicalOr_loop ::
  "env \<Rightarrow> fn \<Rightarrow> jsval \<Rightarrow> addr \<Rightarrow> heap \<Rightarrow> jsval list \<Rightarrow> js_error option \<times> heap" where
  "logicalOr_loop E isValid paramsProvided extractedParams h [] = (None, h)"
| "logicalOr_loop E isValid paramsProvided extractedParams h (paramName # paramNames) =
     (if truthy (call E isValid (getProp E h paramsProvided (toStr E paramName)))
      then (case put E h extractedParams (toStr E paramName)
                   (getProp E h paramsProvided (toStr E paramName)) of
              (Some e, h') \<Rightarrow> (Some e, h')
            | (None, h') \<Rightarrow> logicalOr_loop E isValid paramsProvided extractedParams h' paramNames)
      else logicalOr_loop E isValid paramsProvided extractedParams h paramNames)"

definition performLogicalOrParamValidation ::
  "env \<Rightarrow> validator \<Rightarrow> heap \<Rightarrow> jsval \<Rightarrow> jsval list
     \<Rightarrow> (js_error + string list \<times> addr) \<times> heap" where
  "performLogicalOrParamValidation E V h paramsProvided paramNames =
     (let extractedParams = length h;
          h0 = h @ [new_object E];
          isValid = defaultValidation V
      in case logicalOr_loop E isValid paramsProvided extractedParams h0 paramNames of
           (Some e, h1) \<Rightarrow> (Inl e, h1)
         | (None, h1) \<Rightarrow>
             (let errors =
                    (if length (map fst (own (obj_at h1 extractedParams))) = 0 then
                       (let errorMessage =
                              foldl (\<lambda>m paramName. m @ quote @ toStr E paramName @ quote @ '', '')
                                ''One of the following parameters must be included: ''
                                paramNames
                        in [take (length errorMessage - 2) errorMessage @ ''.''])
                     else [])
              in (Inr (errors, extractedParams), h1)))"

text \<open>
  The function test \<^verbatim>\<open>typeof validationFunction !== 'function'\<close> is the case split; the
  result of the call is compared with \<^verbatim>\<open>=== true\<close>.
\<close>

definition executeValidationFunction ::
  "env \<Rightarrow> heap \<Rightarrow> jsval \<Rightarrow> jsval \<Rightarrow> jsval \<Rightarrow> (js_error + string list \<times> addr) \<times> heap" where
  "executeValidationFunction E h paramsProvided paramName validationFunction =
     (let extractedParams = length h;
          h0 = h @ [new_object E]
      in case validationFunction of
           Fun f \<Rightarrow>
             (let v = getProp E h0 paramsProvided (toStr E paramName)
              in if call E f v = Bool True then
                   (case put E h0 extractedParams (toStr E paramName) v of
                      (Some e, h1) \<Rightarrow> (Inl e, h1)
                    | (None, h1) \<Rightarrow> (Inr ([], extractedParams), h1))
                 else (Inr ([''Invalid value of '' @ quote @ toStr E v @ quote
                             @ '' was provided for parameter '' @ quote @ toStr E paramName
                             @ quote @ ''.''], extractedParams), h0))
         | _ \<Rightarrow>
             (Inl (Error (''A paramRequirement value provided for the parameter ''
                          @ toStr E paramName @ '' is not a function.'')), h0))"

subsection \<open>validate\<close>

text \<open>
  One turn of the loop over \<^verbatim>\<open>paramRequirements\<close>, on the store \<open>h\<close> and the errors so
  far. \<open>t\<close> is the address of \<^verbatim>\<open>extractedParams\<close>. \<^verbatim>\<open>Object.assign\<close> copies the own
  properties of the local object of the evaluator. An evaluator or an \<^verbatim>\<open>Object.assign\<close>
  that raises ends the turn with that error, before the messages of the turn are appended.
\<close>

definition validate_item ::
  "env \<Rightarrow> validator \<Rightarrow> jsval \<Rightarrow> addr \<Rightarrow> heap \<Rightarrow> string list \<Rightarrow> jsval
     \<Rightarrow> (js_error + string list) \<times> heap" where
  "validate_item E V paramsProvided t h errors paramRequirement =
     (if isArray paramRequirement
         \<and> truthy (getProp E h paramRequirement ''length'') then
        (case paramRequirement of
           Arr paramNames \<Rightarrow>
             (case performLogicalOrParamValidation E V h paramsProvided paramNames of
                (Inl e, h1) \<Rightarrow> (Inl e, h1)
              | (Inr validationResult, h1) \<Rightarrow>
                  (case object_assign E h1 t (own (obj_at h1 (snd validationResult))) of
                     (Some e, h2) \<Rightarrow> (Inl e, h2)
                   | (None, h2) \<Rightarrow> (Inr (errors @ fst validationResult), h2)))
         | _ \<Rightarrow> (Inr errors, h))
      else if typeOf paramRequirement = ''object'' then
        (case objectKeys h paramRequirement of
           Inl e \<Rightarrow> (Inl e, h)
         | Inr keys \<Rightarrow>
             (let paramName = (case keys of [] \<Rightarrow> Undefined | k # ks \<Rightarrow> Str k);
                  validationFunction = getProp E h paramRequirement (toStr E paramName)
              in case executeValidationFunction E h paramsProvided paramName
                        validationFunction of
                   (Inl e, h1) \<Rightarrow> (Inl e, h1)
                 | (Inr validationResult, h1) \<Rightarrow>
                     (case object_assign E h1 t (own (obj_at h1 (snd validationResult))) of
                        (Some e, h2) \<Rightarrow> (Inl e, h2)
                      | (None, h2) \<Rightarrow>
                          (case object_assign E h2 t
                                  (own (obj_at h2 (snd validationResult))) of
                             (Some e, h3) \<Rightarrow> (Inl e, h3)
                           | (None, h3) \<Rightarrow> (Inr (errors @ fst validationResult), h3)))))
      else if typeOf paramRequirement = ''string'' \<and> truthy paramRequirement then
        (case executeValidationFunction E h paramsProvided paramRequirement
                (Fun (defaultValidation V)) of
           (Inl e, h1) \<Rightarrow> (Inl e, h1)
         | (Inr validationResult, h1) \<Rightarrow>
             (case object_assign E h1 t (own (obj_at h1 (snd validationResult))) of
                (Some e, h2) \<Rightarrow> (Inl e, h2)
              | (None, h2) \<Rightarrow> (Inr (errors @ fst validationResult), h2)))
      else (Inr errors, h))"

fun validate_loop ::
  "env \<Rightarrow> validator \<Rightarrow> jsval \<Rightarrow> addr \<Rightarrow> heap \<Rightarrow> string list \<Rightarrow> jsval list
     \<Rightarrow> (js_error + string list) \<times> heap" where
  "validate_loop E V paramsProvided t h errors [] = (Inr errors, h)"
| "validate_loop E V paramsProvided t h errors (r # rs) =
     (case validate_item E V paramsProvided t h errors r of
        (Inl e, h') \<Rightarrow> (Inl e, h')
      | (Inr errors', h') \<Rightarrow> validate_loop E V paramsProvided t h' errors' rs)"

text \<open>The message of the final error: every message followed by a space, the last space cut.\<close>

definition join_errors :: "string list \<Rightarrow> string" where
  "join_errors errors =
     (let errorMessage = foldl (\<lambda>m e. m @ e @ '' '') [] errors
      in take (length errorMessage - 1) errorMessage)"

text \<open>
  \<^verbatim>\<open>validate(paramsProvided, paramRequirements, extractedParams = {})\<close>. The target is
  \<open>None\<close> when the caller leaves it out (or passes \<^verbatim>\<open>undefined\<close>) and \<open>Some a\<close> for an
  object of the caller's in the store; the default \<^verbatim>\<open>{}\<close> is allocated on entry, before any
  test. The result is the value returned or the error raised, with the store the call
  leaves. The local objects of the evaluators stay in the store behind the caller's
  objects; nothing refers to them.
\<close>

definition validate ::
  "env \<Rightarrow> validator \<Rightarrow> heap \<Rightarrow> jsval \<Rightarrow> jsval \<Rightarrow> addr option
     \<Rightarrow> (js_error + jsval) \<times> heap" where
  "validate E V h paramsProvided paramRequirements extractedParams =
     (let t = (case extractedParams of None \<Rightarrow> length h | Some a \<Rightarrow> a);
          h0 = (case extractedParams of None \<Rightarrow> h @ [new_object E] | Some a \<Rightarrow> h)
      in if \<not> truthy paramsProvided then
           (Inl (ParameterValidationError ''A paramsProvided object is required.''), h0)
         else case paramRequirements of
                Arr rs \<Rightarrow>
                  (case validate_loop E V paramsProvided t h0 [] rs of
                     (Inl e, h') \<Rightarrow> (Inl e, h')
                   | (Inr errors, h') \<Rightarrow>
                       if length errors \<noteq> 0
                       then (Inl (ParameterValidationError (join_errors errors)), h')
                       else (Inr (Ref t), h'))
              | _ \<Rightarrow> (Inl (Error ''paramRequirements must be an array.''), h0))"

subsection \<open>The variant that merges once\<close>

text \<open>
  The branch for a rule object calls \<^verbatim>\<open>Object.assign(extractedParams, validationResult.params)\<close>
  twice in a row. \<open>validate_once\<close> is \<open>validate\<close> with the second call removed, to be
  compared with the code as written.
\<close>

definition validate_item_once ::
  "env \<Rightarrow> validator \<Rightarrow> jsval \<Rightarrow> addr \<Rightarrow> heap \<Rightarrow> string list \<Rightarrow> jsval
     \<Rightarrow> (js_error + string list) \<times> heap" where
  "validate_item_once E V paramsProvided t h errors paramRequirement =
     (if isArray paramRequirement
         \<and> truthy (getProp E h paramRequirement ''length'') then
        (case paramRequirement of
           Arr paramNames \<Rightarrow>
             (case performLogicalOrParamValidation E V h paramsProvided paramNames of
                (Inl e, h1) \<Rightarrow> (Inl e, h1)
              | (Inr validationResult, h1) \<Rightarrow>
                  (case object_assign E h1 t (own (obj_at h1 (snd validationResult))) of
                     (Some e, h2) \<Rightarrow> (Inl e, h2)
                   | (None, h2) \<Rightarrow> (Inr (errors @ fst validationResult), h2)))
         | _ \<Rightarrow> (Inr errors, h))
      else if typeOf paramRequirement = ''object'' then
        (case objectKeys h paramRequirement of
           Inl e \<Rightarrow> (Inl e, h)
         | Inr keys \<Rightarrow>
             (let paramName = (case keys of [] \<Rightarrow> Undefined | k # ks \<Rightarrow> Str k);
                  validationFunction = getProp E h paramRequirement (toStr E paramName)
              in case executeValidationFunction E h paramsProvided paramName
                        validationFunction of
                   (Inl e, h1) \<Rightarrow> (Inl e, h1)
                 | (Inr validationResult, h1) \<Rightarrow>
                     (case object_assign E h1 t (own (obj_at h1 (snd validationResult))) of
                        (Some e, h2) \<Rightarrow> (Inl e, h2)
                      | (None, h2) \<Rightarrow> (Inr (errors @ fst validationResult), h2))))
      else if typeOf paramRequirement = ''string'' \<and> truthy paramRequirement then
        (case executeValidationFunction E h paramsProvided paramRequirement
                (Fun (defaultValidation V)) of
           (Inl e, h1) \<Rightarrow> (Inl e, h1)
         | (Inr validationResult, h1) \<Rightarrow>
             (case object_assign E h1 t (own (obj_at h1 (snd validationResult))) of
                (Some e, h2) \<Rightarrow> (Inl e, h2)
              | (None, h2) \<Rightarrow> (Inr (errors @ fst validationResult), h2)))
      else (Inr errors, h))"

fun validate_loop_once ::
  "env \<Rightarrow> validator \<Rightarrow> jsval \<Rightarrow> addr \<Rightarrow> heap \<Rightarrow> string list \<Rightarrow> jsval list
     \<Rightarrow> (js_error + string list) \<times> heap" where
  "validate_loop_once E V paramsProvided t h errors [] = (Inr errors, h)"
| "validate_loop_once E V paramsProvided t h errors (r # rs) =
     (case validate_item_once E V paramsProvided t h errors r of
        (Inl e, h') \<Rightarrow> (Inl e, h')
      | (Inr errors', h') \<Rightarrow> validate_loop_once E V paramsProvided t h' errors' rs)"

definition validate_once ::
  "env \<Rightarrow> validator \<Rightarrow> heap \<Rightarrow> jsval \<Rightarrow> jsval \<Rightarrow> addr option
     \<Rightarrow> (js_error + jsval) \<times> heap" where
  "validate_once E V h paramsProvided paramRequirements extractedParams =
     (let t = (case extractedParams of None \<Rightarrow> length h | Some a \<Rightarrow> a);
          h0 = (case extractedParams of None \<Rightarrow> h @ [new_object E] | Some a \<Rightarrow> h)
      in if \<not> truthy paramsProvided then
           (Inl (ParameterValidationError ''A paramsProvided object is required.''), h0)
         else case paramRequirements of
                Arr rs \<Rightarrow>
                  (case validate_loop_once E V paramsProvided t h0 [] rs of
                     (Inl e, h') \<Rightarrow> (Inl e, h')
                   | (Inr errors, h') \<Rightarrow>
                       if length errors \<noteq> 0
                       then (Inl (ParameterValidationError (join_errors errors)), h')
                       else (Inr (Ref t), h'))
              | _ \<Rightarrow> (Inl (Error ''paramRequirements must be an array.''), h0))"

section \<open>validateAsync\<close>










section \<open>The rules as the specification reads them\<close>

text \<open>
  The specification has three kinds of requirement: a required parameter, a group of
  which one is required, and a parameter with a predicate of its own. \<open>rule_of\<close> reads a
  requirement item of a valid shape as one of them: a non-empty string, a non-empty array
  of names, or an object with exactly one key whose value is a function.
\<close>

datatype requirement =
    Required string
  | RequiredOneOf "string list"
  | Custom string fn

fun rule_of :: "env \<Rightarrow> heap \<Rightarrow> jsval \<Rightarrow> requirement option" where
  "rule_of E h (Str s) = (if s \<noteq> [] then Some (Required s) else None)"
| "rule_of E h (Arr ns) = (if ns \<noteq> [] then Some (RequiredOneOf (map (toStr E) ns)) else None)"
| "rule_of E h (Ref a) =
     (case own (obj_at h a) of [(k, Fun f)] \<Rightarrow> Some (Custom k f) | _ \<Rightarrow> None)"
| "rule_of E h v = None"

definition rules_of :: "env \<Rightarrow> heap \<Rightarrow> jsval list \<Rightarrow> requirement list" where
  "rules_of E h rs = List.map_filter (rule_of E h) rs"

text \<open>
  The messages of the specification, and the names that pass a rule and the messages it
  reports, given the default validation \<open>d\<close> and the provided values as the lookup \<open>P\<close>.
  A name of a group passes when the default validation returns a truthy value; a required
  parameter and a parameter with its own predicate pass when the result is the boolean
  \<^verbatim>\<open>true\<close>. For a validation that returns booleans, as its contract asks, the two are the
  same.
\<close>

definition one_of_message :: "string list \<Rightarrow> string" where
  "one_of_message names =
     ''One of the following parameters must be included: ''
     @ join '', '' (map (\<lambda>n. quote @ n @ quote) names) @ ''.''"

definition invalid_message :: "env \<Rightarrow> jsval \<Rightarrow> string \<Rightarrow> string" where
  "invalid_message E v name =
     ''Invalid value of '' @ quote @ toStr E v @ quote @ '' was provided for parameter ''
     @ quote @ name @ quote @ ''.''"

fun passing :: "env \<Rightarrow> fn \<Rightarrow> (string \<Rightarrow> jsval) \<Rightarrow> requirement \<Rightarrow> string list" where
  "passing E d P (Required n) = (if call E d (P n) = Bool True then [n] else [])"
| "passing E d P (RequiredOneOf ns) = filter (\<lambda>n. truthy (call E d (P n))) ns"
| "passing E d P (Custom n f) = (if call E f (P n) = Bool True then [n] else [])"

fun rule_errors :: "env \<Rightarrow> fn \<Rightarrow> (string \<Rightarrow> jsval) \<Rightarrow> requirement \<Rightarrow> string list" where
  "rule_errors E d P (Required n) =
     (if call E d (P n) = Bool True then [] else [invalid_message E (P n) n])"
| "rule_errors E d P (RequiredOneOf ns) =
     (if filter (\<lambda>n. truthy (call E d (P n))) ns = [] then [one_of_message ns] else [])"
| "rule_errors E d P (Custom n f) =
     (if call E f (P n) = Bool True then [] else [invalid_message E (P n) n])"

definition all_errors ::
  "env \<Rightarrow> validator \<Rightarrow> heap \<Rightarrow> jsval \<Rightarrow> jsval list \<Rightarrow> string list" where
  "all_errors E V h pp rs =
     concat (map (rule_errors E (defaultValidation V) (getProp E h pp)) (rules_of E h rs))"

definition all_passing ::
  "env \<Rightarrow> validator \<Rightarrow> heap \<Rightarrow> jsval \<Rightarrow> jsval list \<Rightarrow> string list" where
  "all_passing E V h pp rs =
     concat (map (passing E (defaultValidation V) (getProp E h pp)) (rules_of E h rs))"

text \<open>
  The conditions under which the rules are evaluated as the specification reads them.
  \<^item> Every item has a valid shape.
  \<^item> No rule names the parameter \<^verbatim>\<open>__proto__\<close>, whose assignment to an object literal
    makes no property.
  \<^item> The provided values are an object of the store, or a value that is no reference.
  \<^item> An object is plain when no assignment to it runs a setter, but for the name
    \<^verbatim>\<open>__proto__\<close>: an object literal is, an instance of a class with setters is not.
    The target is separate from the requirements when it is left out, or is a plain
    object of the store that is not itself one of the rule objects.
\<close>

fun names_of :: "requirement \<Rightarrow> string list" where
  "names_of (Required n) = [n]"
| "names_of (RequiredOneOf ns) = ns"
| "names_of (Custom n f) = [n]"

definition valid_shapes :: "env \<Rightarrow> heap \<Rightarrow> jsval list \<Rightarrow> bool" where
  "valid_shapes E h rs = list_all (\<lambda>r. rule_of E h r \<noteq> None) rs"

definition no_proto_names :: "env \<Rightarrow> heap \<Rightarrow> jsval list \<Rightarrow> bool" where
  "no_proto_names E h rs = list_all (\<lambda>q. ''__proto__'' \<notin> set (names_of q)) (rules_of E h rs)"

definition in_store :: "heap \<Rightarrow> jsval \<Rightarrow> bool" where
  "in_store h v = (case v of Ref a \<Rightarrow> a < length h | _ \<Rightarrow> True)"

definition plain :: "obj \<Rightarrow> bool" where
  "plain ob = list_all (\<lambda>p. fst p = ''__proto__'') (setters ob)"

definition separate_target :: "heap \<Rightarrow> jsval list \<Rightarrow> addr option \<Rightarrow> bool" where
  "separate_target h rs tgt =
     (case tgt of
        None \<Rightarrow> True
      | Some t \<Rightarrow> t < length h \<and> plain (obj_at h t) \<and> Ref t \<notin> set rs)"

definition target_addr :: "heap \<Rightarrow> addr option \<Rightarrow> addr" where
  "target_addr h tgt = (case tgt of None \<Rightarrow> length h | Some t \<Rightarrow> t)"

text \<open>
  An item that no branch of the loop takes: its type is neither \<^verbatim>\<open>object\<close> nor a
  non-empty \<^verbatim>\<open>string\<close>.
\<close>

definition ignored :: "jsval \<Rightarrow> bool" where
  "ignored r = (typeOf r \<noteq> ''object'' \<and> \<not> (typeOf r = ''string'' \<and> truthy r))"

subsection \<open>Notions for the proofs\<close>

text \<open>
  The assignments an evaluator makes to its local object for a rule, in order; the own
  properties a sequence of assignments leaves on an object without setters for the
  names; the same as a function of the store; and \<open>extends E h t pp h'\<close>: the store \<open>h'\<close>
  has the objects of \<open>h\<close> and maybe more, differs on them at most in the own properties of
  the object at \<open>t\<close>, and every property of the provided values \<open>pp\<close> still reads the same.
\<close>

fun rule_writes :: "env \<Rightarrow> fn \<Rightarrow> (string \<Rightarrow> jsval) \<Rightarrow> requirement \<Rightarrow> props" where
  "rule_writes E d P q = map (\<lambda>n. (n, P n)) (passing E d P q)"

definition written :: "props \<Rightarrow> props \<Rightarrow> props" where
  "written ps src = foldl (\<lambda>ob p. set_prop ob (fst p) (snd p)) ps src"

definition write_own :: "heap \<Rightarrow> addr \<Rightarrow> props \<Rightarrow> heap" where
  "write_own h t src =
     (if t < length h then h[t := (h ! t)\<lparr>own := written (own (h ! t)) src\<rparr>] else h)"

definition extends :: "env \<Rightarrow> heap \<Rightarrow> addr \<Rightarrow> jsval \<Rightarrow> heap \<Rightarrow> bool" where
  "extends E h t pp h' =
     (length h \<le> length h'
      \<and> (\<forall>a < length h. a \<noteq> t \<longrightarrow> h' ! a = h ! a)
      \<and> setters (obj_at h' t) = setters (obj_at h t)
      \<and> inherited (obj_at h' t) = inherited (obj_at h t)
      \<and> (\<forall>k. getProp E h' pp k = getProp E h pp k))"

section \<open>Example inputs\<close>

text \<open>
  An environment to evaluate statements on concrete input. Function 0 accepts every
  value, function 1 accepts the numbers above 30 and nothing else, and every other
  function returns its argument. The inherited properties of an object literal are those
  of \<^verbatim>\<open>Object.prototype\<close> (its methods are the functions from 100 on, \<open>Host 0\<close> is the
  prototype object itself). Reads beyond the own properties of an array, a string, a
  number, a boolean or a function find the same properties; the methods of their own
  prototypes are left out of the example. The one integer beyond \<open>2^53\<close> of the examples
  is \<open>10^21\<close>, printed \<^verbatim>\<open>1e+21\<close>, and the one number that is no integer is one half.
\<close>

definition std_props :: props where
  "std_props =
     [(''constructor'', Fun (User 100)),
      (''__defineGetter__'', Fun (User 101)),
      (''__defineSetter__'', Fun (User 102)),
      (''hasOwnProperty'', Fun (User 103)),
      (''__lookupGetter__'', Fun (User 104)),
      (''__lookupSetter__'', Fun (User 105)),
      (''isPrototypeOf'', Fun (User 106)),
      (''propertyIsEnumerable'', Fun (User 107)),
      (''toString'', Fun (User 108)),
      (''valueOf'', Fun (User 109)),
      (''__proto__'', Host 0),
      (''toLocaleString'', Fun (User 110))]"

text \<open>The object a literal with the given properties makes.\<close>

definition literal :: "props \<Rightarrow> obj" where
  "literal ps = \<lparr>own = ps, inherited = std_props, setters = [(''__proto__'', 0)]\<rparr>"

text \<open>
  Setter 0 is the setter of \<^verbatim>\<open>__proto__\<close>: it makes no own property and gives the object
  the inherited properties of its new prototype. Setter 1 is the setter of a class,
  \<^verbatim>\<open>set label(v) { if ('_label' in this) throw new Error('label is already set'); this._label = v; }\<close>.
\<close>

definition example_setter :: "nat \<Rightarrow> addr \<Rightarrow> jsval \<Rightarrow> heap \<Rightarrow> js_error option \<times> heap" where
  "example_setter i t v h =
     (if i = 0 then
        (case v of
           Null \<Rightarrow> (None, h[t := (obj_at h t)\<lparr>inherited := [], setters := []\<rparr>])
         | Ref b \<Rightarrow>
             (None, h[t := (obj_at h t)\<lparr>inherited := own (obj_at h b) @ inherited (obj_at h b),
                                        setters := setters (obj_at h b)\<rparr>])
         | Host j \<Rightarrow>
             (None, h[t := (obj_at h t)\<lparr>inherited := std_props,
                                        setters := [(''__proto__'', 0)]\<rparr>])
         | _ \<Rightarrow> (None, h))
      else if i = 1 then
        (if map_of (own (obj_at h t)) ''_label'' \<noteq> None
         then (Some (Error ''label is already set''), h)
         else (None, h[t := (obj_at h t)\<lparr>own := set_prop (own (obj_at h t)) ''_label'' v\<rparr>]))
      else (None, h))"

text \<open>
  As a \<^verbatim>\<open>then\<close>, function 2 calls \<^verbatim>\<open>reject('refused')\<close>, function 3 calls \<^verbatim>\<open>resolve(42)\<close>,
  and every other function calls neither.
\<close>

definition example_then :: "fn \<Rightarrow> jsval \<Rightarrow> heap \<Rightarrow> then_effect \<times> heap" where
  "example_then f v h =
     (if f = User 2 then (ThenRejects (Reason (Str ''refused'')), h)
      else if f = User 3 then (ThenResolves (Num 42), h)
      else (ThenSilent, h))"

definition example_env :: env where
  "example_env =
     \<lparr>fn_call = (\<lambda>i v. if i = 0 then Bool True
                       else if i = 1 then (case v of Num n \<Rightarrow> Bool (30 < n) | _ \<Rightarrow> Bool False)
                       else v),
      fn_src = (\<lambda>f. ''function () { [native code] }''),
      obj_str = (\<lambda>v. ''[object Object]''),
      num_str = (\<lambda>v. case v of NonInt i \<Rightarrow> ''0.5'' | _ \<Rightarrow> ''1e+21''),
      prim_get = (\<lambda>v k. if k = ''__proto__''
                        then (case v of Host i \<Rightarrow> (if i = 0 then Null else Host 0)
                                      | Arr xs \<Rightarrow> Host 1
                                      | Str s \<Rightarrow> Host 2
                                      | Bool b \<Rightarrow> Host 4
                                      | Fun f \<Rightarrow> Fun (User 111)
                                      | _ \<Rightarrow> Host 3)
                        else (case map_of std_props k of Some x \<Rightarrow> x | None \<Rightarrow> Undefined)),
      proto_props = std_props,
      proto_setter = 0,
      setter_run = example_setter,
      then_run = example_then\<rparr>"

text \<open>
  The validator \<^verbatim>\<open>new ParameterValidator()\<close>, and a store with the provided values
  \<^verbatim>\<open>{name: 'Paula', age: 10}\<close>, the rule object \<^verbatim>\<open>{age: val => val > 30}\<close> and a target
  \<^verbatim>\<open>{kept: true}\<close>.
\<close>

definition default_validator :: validator where
  "default_validator = \<lparr>priv_defaultValidation = None\<rparr>"

definition example_store :: heap where
  "example_store =
     [literal [(''name'', Str ''Paula''), (''age'', Num 10)],
      literal [(''age'', Fun (User 1))],
      literal [(''kept'', Bool True)]]"



definition passing_requirements :: "jsval list" where
  "passing_requirements = [Str ''name'', Arr [Str ''a'', Str ''age'']]"


text \<open>
  Further inputs. The object \<^verbatim>\<open>JSON.parse('{"__proto__": 5, "a": 1}')\<close> has the own
  properties \<^verbatim>\<open>__proto__\<close> and \<^verbatim>\<open>a\<close>; \<open>proto_store\<close> holds it, the rule object
  \<^verbatim>\<open>{['__proto__']: v => true}\<close>, the rule object \<^verbatim>\<open>{a: v => true}\<close> and an empty object. An
  instance of the
  class with the setter \<^verbatim>\<open>label\<close> has no own property before the setter has run, and the
  own property \<^verbatim>\<open>_label\<close> afterwards; \<open>label_store\<close> holds the provided values
  \<^verbatim>\<open>{label: 'x'}\<close>, the rule object \<^verbatim>\<open>{label: v => true}\<close>, a new instance and an instance
  whose label is set. \<open>alias_store\<close> holds \<^verbatim>\<open>{x: 1}\<close>, the rule object \<^verbatim>\<open>{x: v => true}\<close>
  and an empty object, and \<open>then_store\<close> the provided values \<^verbatim>\<open>{then: f}\<close> for the functions 2
  and 3.
\<close>

definition proto_store :: heap where
  "proto_store =
     [literal [(''__proto__'', Num 5), (''a'', Num 1)],
      literal [(''__proto__'', Fun (User 0))],
      literal [(''a'', Fun (User 0))],
      literal []]"

definition labelled :: "props \<Rightarrow> obj" where
  "labelled ps = \<lparr>own = ps, inherited = std_props, setters = [(''label'', 1), (''__proto__'', 0)]\<rparr>"

definition label_store :: heap where
  "label_store =
     [literal [(''label'', Str ''x'')],
      literal [(''label'', Fun (User 0))],
      labelled [],
      labelled [(''_label'', Str ''old'')]]"



section \<open>Properties of the store operations\<close>

lemma map_of_insert_mid:
  "map_of xs k = None \<Longrightarrow> map_of (xs @ [(k, v)] @ ys) = (map_of (xs @ ys))(k \<mapsto> v)"
  by (auto simp: map_add_def fun_eq_iff split: option.splits)

lemma map_of_set_prop: "map_of (set_prop ps k v) = (map_of ps)(k \<mapsto> v)"
proof (cases "map_of ps k")
  case None
  let ?P = "\<lambda>p. comes_before (fst p) k"
  have "map_of (takeWhile ?P ps @ dropWhile ?P ps) k = None" using None by simp
  then have nk: "map_of (takeWhile ?P ps) k = None"
    by (simp only: map_of_append map_add_None)
  have "map_of (takeWhile ?P ps @ [(k, v)] @ dropWhile ?P ps)
        = (map_of (takeWhile ?P ps @ dropWhile ?P ps))(k \<mapsto> v)"
    using nk by (rule map_of_insert_mid)
  then show ?thesis using None by (simp add: set_prop_def)
next
  case (Some x)
  then show ?thesis by (simp add: set_prop_def update_conv')
qed

lemma set_prop_idem: "set_prop (set_prop ps k v) k v = set_prop ps k v"
proof -
  have "map_of (set_prop ps k v) k = Some v" by (simp add: map_of_set_prop)
  then show ?thesis by (simp add: set_prop_def[of "set_prop ps k v"] update_triv)
qed

lemma set_prop_Nil: "set_prop [] k v = [(k, v)]"
  by (simp add: set_prop_def)

lemma keys_set_prop: "fst ` set (set_prop ps k v) = insert k (fst ` set ps)"
proof -
  have "dom (map_of (set_prop ps k v)) = insert k (dom (map_of ps))"
    by (simp add: map_of_set_prop)
  then show ?thesis by (simp add: dom_map_of_conv_image_fst)
qed

lemma distinct_set_prop:
  assumes "distinct (map fst ps)"
  shows "distinct (map fst (set_prop ps k v))"
proof (cases "map_of ps k")
  case None
  define xs where "xs = takeWhile (\<lambda>p. comes_before (fst p) k) ps"
  define ys where "ys = dropWhile (\<lambda>p. comes_before (fst p) k) ps"
  have ps: "ps = xs @ ys" by (simp add: xs_def ys_def)
  have k: "k \<notin> fst ` set ps" using None by (simp add: map_of_eq_None_iff)
  have "distinct (map fst (xs @ [(k, v)] @ ys))"
    using assms k unfolding ps by auto
  then show ?thesis using None by (simp add: set_prop_def xs_def ys_def)
next
  case (Some x)
  then show ?thesis using assms by (simp add: set_prop_def distinct_update)
qed

text \<open>A sequence of assignments of own properties.\<close>

lemma written_Nil: "written ps [] = ps"
  by (simp add: written_def)

lemma written_append: "written ps (a @ b) = written (written ps a) b"
  by (simp add: written_def)

lemma written_single: "written ps [(k, v)] = set_prop ps k v"
  by (simp add: written_def)

lemma map_of_written:
  assumes "\<forall>p\<in>set src. snd p = g (fst p)"
  shows "map_of (written ps src) k
         = (if k \<in> fst ` set src then Some (g k) else map_of ps k)"
  using assms unfolding written_def
  by (induction src arbitrary: ps) (auto simp: map_of_set_prop)

lemma keys_written: "fst ` set (written ps src) = fst ` set ps \<union> fst ` set src"
  unfolding written_def
  by (induction src arbitrary: ps) (auto simp: keys_set_prop)

lemma distinct_written:
  "distinct (map fst ps) \<Longrightarrow> distinct (map fst (written ps src))"
  unfolding written_def
  by (induction src arbitrary: ps) (simp_all add: distinct_set_prop)

lemma written_empty: "(written [] src = []) = (src = [])"
  using keys_written[of "[]" src] by (cases src) auto

lemma values_written:
  assumes "\<forall>p\<in>set src. snd p = g (fst p)"
  shows "\<forall>p\<in>set (written [] src). snd p = g (fst p)"
proof
  fix p assume p: "p \<in> set (written [] src)"
  have "distinct (map fst (written [] src))" by (simp add: distinct_written)
  then have "map_of (written [] src) (fst p) = Some (snd p)" using p by simp
  moreover have "fst p \<in> fst ` set src" using p keys_written[of "[]" src] by auto
  ultimately show "snd p = g (fst p)"
    using map_of_written[OF assms, of "[]" "fst p"] by simp
qed

text \<open>The same on the store.\<close>

lemma write_own_Nil: "write_own h t [] = h"
  by (simp add: write_own_def written_Nil list_update_same_conv)

lemma write_own_length: "length (write_own h t src) = length h"
  by (simp add: write_own_def)

lemma write_own_nth: "a \<noteq> t \<Longrightarrow> write_own h t src ! a = h ! a"
  by (simp add: write_own_def)

lemma write_own_other: "a \<noteq> t \<Longrightarrow> obj_at (write_own h t src) a = obj_at h a"
  by (simp add: write_own_def obj_at_def)

lemma write_own_setters: "setters (obj_at (write_own h t src) t) = setters (obj_at h t)"
  by (simp add: write_own_def obj_at_def)

lemma write_own_inherited: "inherited (obj_at (write_own h t src) t) = inherited (obj_at h t)"
  by (simp add: write_own_def obj_at_def)

lemma write_own_own:
  "t < length h \<Longrightarrow> own (obj_at (write_own h t src) t) = written (own (obj_at h t)) src"
  by (simp add: write_own_def obj_at_def)

lemma write_own_append:
  "write_own (write_own h t a) t b = write_own h t (a @ b)"
  by (simp add: write_own_def written_append)

lemma write_own_single_twice:
  "write_own (write_own h t [(k, v)]) t [(k, v)] = write_own h t [(k, v)]"
  by (simp add: write_own_def written_single set_prop_idem)

lemma write_own_fresh:
  "write_own (h @ [ob]) (length h) src = h @ [ob\<lparr>own := written (own ob) src\<rparr>]"
  by (simp add: write_own_def)

lemma write_own_target:
  assumes "t < length h" and "\<forall>p\<in>set src. snd p = g (fst p)"
  shows "map_of (own (obj_at (write_own h t src) t)) k
         = (if k \<in> fst ` set src then Some (g k) else map_of (own (obj_at h t)) k)"
  using assms(1) map_of_written[OF assms(2), of "own (obj_at h t)" k]
  by (simp add: write_own_own)

lemma getProp_write_own:
  assumes "pp \<noteq> Ref t"
  shows "getProp E (write_own h t src) pp k = getProp E h pp k"
  using assms by (cases pp) (simp_all add: getProp_def write_own_other split: option.splits)

text \<open>An assignment to a plain object writes an own property, but for \<^verbatim>\<open>__proto__\<close>.\<close>

lemma plain_no_setter:
  "plain ob \<Longrightarrow> k \<noteq> ''__proto__'' \<Longrightarrow> map_of (setters ob) k = None"
  by (induction "setters ob" arbitrary: ob)
     (auto simp: plain_def list_all_iff map_of_eq_None_iff)

lemma plain_write_own: "plain (obj_at (write_own h t src) a) = plain (obj_at h a)"
  by (cases "a = t") (simp_all add: plain_def write_own_setters write_own_other)

lemma put_plain:
  assumes "plain (obj_at h t)" and "k \<noteq> ''__proto__''"
  shows "put E h t k v = (None, write_own h t [(k, v)])"
proof -
  have "map_of (setters (obj_at h t)) k = None"
    using plain_no_setter[OF assms] .
  then show ?thesis
    by (cases "t < length h")
       (simp_all add: put_def write_own_def written_single obj_at_def list_update_beyond
          split: option.splits)
qed

lemma object_assign_plain:
  assumes "plain (obj_at h t)" and "''__proto__'' \<notin> fst ` set src"
  shows "object_assign E h t src = (None, write_own h t src)"
  using assms
proof (induction src arbitrary: h)
  case Nil
  then show ?case by (simp add: write_own_Nil)
next
  case (Cons p ps)
  have k: "fst p \<noteq> ''__proto__''" using Cons.prems(2) by auto
  have step: "put E h t (fst p) (snd p) = (None, write_own h t [p])"
    using put_plain[OF Cons.prems(1) k, of E "snd p"] by simp
  have pl: "plain (obj_at (write_own h t [p]) t)"
    using Cons.prems(1) by (simp add: plain_write_own)
  have "object_assign E (write_own h t [p]) t ps = (None, write_own (write_own h t [p]) t ps)"
    using Cons.IH[OF pl] Cons.prems(2) by simp
  then show ?case
    using step write_own_append[of h t "[p]" ps] by simp
qed

text \<open>Allocating an object changes no object the store has.\<close>

lemma obj_at_alloc: "a < length h \<Longrightarrow> obj_at (h @ [ob]) a = obj_at h a"
  by (simp add: obj_at_def nth_append)

lemma obj_at_fresh: "obj_at (h @ [ob]) (length h) = ob"
  by (simp add: obj_at_def)

lemma getProp_alloc: "in_store h pp \<Longrightarrow> getProp E (h @ [ob]) pp k = getProp E h pp k"
  by (cases pp) (simp_all add: getProp_def in_store_def obj_at_alloc split: option.splits)

lemma plain_new_object: "plain (new_object E)"
  by (simp add: plain_def new_object_def)

lemma new_object_own: "(new_object E)\<lparr>own := []\<rparr> = new_object E"
  by (simp add: new_object_def)

lemma own_new_object: "own (new_object E) = []"
  by (simp add: new_object_def)

section \<open>The messages\<close>

lemma foldl_append_acc:
  "foldl (\<lambda>m x. m @ f x) acc xs = acc @ concat (map f xs)"
  by (induction xs arbitrary: acc) simp_all

lemma concat_sep_join:
  "xs \<noteq> [] \<Longrightarrow> concat (map (\<lambda>x. x @ sep) xs) = join sep xs @ sep"
  by (induction sep xs rule: join.induct) simp_all


lemma or_message_eq:
  assumes "names \<noteq> []"
  shows "(let errorMessage =
              foldl (\<lambda>m paramName. m @ quote @ toStr E paramName @ quote @ '', '')
                ''One of the following parameters must be included: '' names
          in take (length errorMessage - 2) errorMessage @ ''.'')
         = one_of_message (map (toStr E) names)"
proof -
  let ?q = "\<lambda>n. quote @ toStr E n @ quote"
  have "concat (map (\<lambda>n. ?q n @ '', '') names) = join '', '' (map ?q names) @ '', ''"
    using concat_sep_join[of "map ?q names" "'', ''"] assms by (simp add: comp_def)
  then have "foldl (\<lambda>m paramName. m @ quote @ toStr E paramName @ quote @ '', '')
                ''One of the following parameters must be included: '' names
        = ''One of the following parameters must be included: ''
          @ join '', '' (map ?q names) @ '', ''"
    using foldl_append_acc[of "\<lambda>n. ?q n @ '', ''"
            "''One of the following parameters must be included: ''" names]
    by simp
  then show ?thesis by (simp add: one_of_message_def Let_def comp_def)
qed

section \<open>One turn of the loop\<close>

text \<open>
  The loop of the logical-or rule on a plain local object: the names that pass are
  written, in order.
\<close>

lemma logicalOr_loop_plain:
  assumes "plain (obj_at h a)" and "pp \<noteq> Ref a"
    and "''__proto__'' \<notin> toStr E ` set ns"
  shows "logicalOr_loop E d pp a h ns
         = (None, write_own h a
                    (map (\<lambda>n. (n, getProp E h pp n))
                       (filter (\<lambda>n. truthy (call E d (getProp E h pp n))) (map (toStr E) ns))))"
  using assms
proof (induction ns arbitrary: h)
  case Nil
  then show ?case by (simp add: write_own_Nil)
next
  case (Cons n ns)
  let ?k = "toStr E n"
  let ?v = "getProp E h pp ?k"
  have k: "?k \<noteq> ''__proto__''" using Cons.prems(3) by auto
  have rest: "''__proto__'' \<notin> toStr E ` set ns" using Cons.prems(3) by auto
  show ?case
  proof (cases "truthy (call E d ?v)")
    case True
    let ?h1 = "write_own h a [(?k, ?v)]"
    have step: "put E h a ?k ?v = (None, ?h1)"
      using put_plain[OF Cons.prems(1) k] .
    have pl: "plain (obj_at ?h1 a)" using Cons.prems(1) by (simp add: plain_write_own)
    have rd: "getProp E ?h1 pp = getProp E h pp"
      using getProp_write_own[OF Cons.prems(2)] by (intro ext) simp
    show ?thesis
      using True step Cons.IH[OF pl Cons.prems(2) rest] rd
      by (simp add: write_own_append)
  next
    case False
    then show ?thesis using Cons.IH[OF Cons.prems(1) Cons.prems(2) rest] by simp
  qed
qed

text \<open>
  The evaluators compute what the specification says for the rule, and leave the
  parameters that pass on a new object behind the store.
\<close>

lemma performLogicalOr_result:
  assumes "ns \<noteq> []" and "in_store h pp" and "''__proto__'' \<notin> toStr E ` set ns"
  shows "performLogicalOrParamValidation E V h pp ns
         = (Inr (rule_errors E (defaultValidation V) (getProp E h pp)
                   (RequiredOneOf (map (toStr E) ns)), length h),
            h @ [(new_object E)
                   \<lparr>own := written [] (rule_writes E (defaultValidation V) (getProp E h pp)
                                          (RequiredOneOf (map (toStr E) ns)))\<rparr>])"
proof -
  let ?h0 = "h @ [new_object E]"
  let ?d = "defaultValidation V"
  let ?src = "map (\<lambda>n. (n, getProp E h pp n))
                (filter (\<lambda>n. truthy (call E ?d (getProp E h pp n))) (map (toStr E) ns))"
  have pp: "pp \<noteq> Ref (length h)" using assms(2) by (auto simp: in_store_def)
  have rd: "getProp E ?h0 pp = getProp E h pp"
    using getProp_alloc[OF assms(2)] by (intro ext) simp
  have loop: "logicalOr_loop E ?d pp (length h) ?h0 ns
              = (None, h @ [(new_object E)\<lparr>own := written [] ?src\<rparr>])"
    using logicalOr_loop_plain[of ?h0 "length h" pp E ns ?d] pp assms(3) rd
    by (simp add: obj_at_fresh plain_new_object write_own_fresh own_new_object)
  have empty: "(written [] ?src = []) = (filter (\<lambda>n. truthy (call E ?d (getProp E h pp n)))
                                            (map (toStr E) ns) = [])"
    by (simp add: written_empty)
  show ?thesis
    using loop empty or_message_eq[OF assms(1), of E]
    by (simp add: performLogicalOrParamValidation_def Let_def obj_at_fresh)
qed

lemma executeValidationFunction_result:
  assumes "in_store h pp" and "n \<noteq> ''__proto__''"
  shows "executeValidationFunction E h pp (Str n) (Fun f)
         = (Inr (rule_errors E d (getProp E h pp) (Custom n f), length h),
            h @ [(new_object E)
                   \<lparr>own := written [] (rule_writes E d (getProp E h pp) (Custom n f))\<rparr>])"
proof -
  let ?h0 = "h @ [new_object E]"
  have rd: "getProp E ?h0 pp n = getProp E h pp n"
    using getProp_alloc[OF assms(1)] .
  have wr: "put E ?h0 (length h) n v = (None, h @ [(new_object E)\<lparr>own := [(n, v)]\<rparr>])" for v
    using put_plain[of ?h0 "length h" n E v] assms(2)
    by (simp add: obj_at_fresh plain_new_object write_own_fresh written_single set_prop_Nil
          own_new_object)
  show ?thesis
    using rd wr
    by (simp add: executeValidationFunction_def Let_def invalid_message_def written_Nil
          written_single set_prop_Nil new_object_own)
qed

text \<open>A turn on a rule of a valid shape, for a plain target of the store.\<close>

lemma validate_item_rule:
  assumes "rule_of E h r = Some q" and "''__proto__'' \<notin> set (names_of q)"
    and "in_store h pp" and "t < length h" and "plain (obj_at h t)"
  shows "validate_item E V pp t h errs r
         = (Inr (errs @ rule_errors E (defaultValidation V) (getProp E h pp) q),
            write_own
              (h @ [(new_object E)
                      \<lparr>own := written [] (rule_writes E (defaultValidation V)
                                             (getProp E h pp) q)\<rparr>])
              t (written [] (rule_writes E (defaultValidation V) (getProp E h pp) q)))"
proof -
  let ?d = "defaultValidation V"
  let ?src = "written [] (rule_writes E ?d (getProp E h pp) q)"
  let ?h1 = "h @ [(new_object E)\<lparr>own := ?src\<rparr>]"
  have keys: "fst ` set ?src \<subseteq> set (names_of q)"
    using keys_written[of "[]" "rule_writes E ?d (getProp E h pp) q"]
    by (cases q) (auto split: if_splits)
  have np: "''__proto__'' \<notin> fst ` set ?src" using keys assms(2) by auto
  have pl: "plain (obj_at ?h1 t)" using assms(4,5) by (simp add: obj_at_alloc)
  have once: "object_assign E ?h1 t ?src = (None, write_own ?h1 t ?src)"
    using object_assign_plain[OF pl np] .
  have loc: "own (obj_at ?h1 (length h)) = ?src" by (simp add: obj_at_fresh)
  show ?thesis
  proof (cases r)
    case (Str s)
    with assms(1) have s: "s \<noteq> []" and q: "q = Required s" by (auto split: if_splits)
    have ev: "executeValidationFunction E h pp (Str s) (Fun ?d)
              = (Inr (rule_errors E ?d (getProp E h pp) q, length h), ?h1)"
      using executeValidationFunction_result[OF assms(3), of s E ?d ?d] assms(2)
      by (simp add: q)
    show ?thesis
      using s once loc ev by (simp add: Str validate_item_def)
  next
    case (Arr ns)
    with assms(1) have ns: "ns \<noteq> []" and q: "q = RequiredOneOf (map (toStr E) ns)"
      by (auto split: if_splits)
    have ev: "performLogicalOrParamValidation E V h pp ns
              = (Inr (rule_errors E ?d (getProp E h pp) q, length h), ?h1)"
      using performLogicalOr_result[OF ns assms(3), of E V] assms(2) by (simp add: q)
    show ?thesis
      using ns once loc ev by (simp add: Arr validate_item_def getProp_def)
  next
    case (Ref a)
    with assms(1) obtain k f where ob: "own (obj_at h a) = [(k, Fun f)]" and q: "q = Custom k f"
      by (auto split: list.splits jsval.splits prod.splits)
    have ev: "executeValidationFunction E h pp (Str k) (Fun f)
              = (Inr (rule_errors E ?d (getProp E h pp) q, length h), ?h1)"
      using executeValidationFunction_result[OF assms(3), of k E f ?d] assms(2)
      by (simp add: q)
    have loc2: "own (obj_at (write_own ?h1 t ?src) (length h)) = ?src"
      using assms(4) by (simp add: write_own_other obj_at_fresh)
    have pl2: "plain (obj_at (write_own ?h1 t ?src) t)"
      using pl by (simp add: plain_write_own)
    have "?src = [] \<or> (\<exists>v. ?src = [(k, v)])"
      by (auto simp: q written_Nil written_single set_prop_Nil)
    then have "write_own (write_own ?h1 t ?src) t ?src = write_own ?h1 t ?src"
      by (auto simp: write_own_Nil write_own_single_twice)
    then have twice: "object_assign E (write_own ?h1 t ?src) t ?src
                      = (None, write_own ?h1 t ?src)"
      using object_assign_plain[OF pl2 np, of E] by simp
    show ?thesis
      using once twice loc loc2 ev
      by (simp add: Ref ob validate_item_def objectKeys_def getProp_def[of E h "Ref a"])
  qed (use assms(1) in simp_all)
qed

lemma validate_item_ignored:
  "ignored r \<Longrightarrow> validate_item E V pp t h errs r = (Inr errs, h)"
  by (cases r) (auto simp: validate_item_def ignored_def)

section \<open>The loop and the whole call\<close>

lemma rules_of_Cons_Some:
  "rule_of E h r = Some q \<Longrightarrow> rules_of E h (r # rs) = q # rules_of E h rs"
  by (simp add: rules_of_def map_filter_simps)

lemma rule_of_in_store:
  "rule_of E h (Ref a) \<noteq> None \<Longrightarrow> a < length h"
  by (cases "a < length h") (simp_all add: obj_at_def no_object_def)

lemma extends_refl: "extends E h t pp h"
  by (simp add: extends_def)

lemma extends_rule_of:
  assumes "extends E h t pp h1" and "r \<noteq> Ref t" and "rule_of E h r \<noteq> None"
  shows "rule_of E h1 r = rule_of E h r"
proof (cases r)
  case (Ref a)
  have a: "a < length h" using assms(3) rule_of_in_store Ref by simp
  have "a \<noteq> t" using assms(2) Ref by simp
  then have "obj_at h1 a = obj_at h a"
    using assms(1) a by (simp add: extends_def obj_at_def)
  then show ?thesis by (simp add: Ref)
qed simp_all

lemma extends_getProp: "extends E h t pp h1 \<Longrightarrow> getProp E h1 pp = getProp E h pp"
  by (auto simp: extends_def)

lemma extends_plain: "extends E h t pp h1 \<Longrightarrow> plain (obj_at h1 t) = plain (obj_at h t)"
  by (simp add: extends_def plain_def)

lemma extends_in_store: "extends E h t pp h1 \<Longrightarrow> in_store h pp \<Longrightarrow> in_store h1 pp"
  by (cases pp) (auto simp: extends_def in_store_def)

lemma extends_step:
  assumes ex: "extends E h t pp h1" and t: "t < length h" and ins: "in_store h pp"
    and src: "\<forall>p\<in>set src. snd p = getProp E h pp (fst p)"
  shows "extends E h t pp (write_own (h1 @ [ob]) t src)"
proof -
  let ?h2 = "write_own (h1 @ [ob]) t src"
  have len: "length h \<le> length h1" using ex by (simp add: extends_def)
  have t1: "t < length h1" using t len by simp
  have ins1: "in_store h1 pp" using extends_in_store[OF ex ins] .
  have own2: "own (obj_at ?h2 t) = written (own (obj_at h1 t)) src"
    using t1 by (simp add: write_own_own obj_at_alloc)
  have inh2: "inherited (obj_at ?h2 t) = inherited (obj_at h1 t)"
    using t1 by (simp add: write_own_inherited obj_at_alloc)
  have set2: "setters (obj_at ?h2 t) = setters (obj_at h1 t)"
    using t1 by (simp add: write_own_setters obj_at_alloc)
  have others: "\<forall>a < length h. a \<noteq> t \<longrightarrow> ?h2 ! a = h ! a"
    using ex len by (auto simp: write_own_nth nth_append extends_def)
  have reads: "getProp E ?h2 pp k = getProp E h pp k" for k
  proof (cases "pp = Ref t")
    case True
    have old: "getProp E h1 (Ref t) k = getProp E h (Ref t) k"
      using ex True by (simp add: extends_def)
    show ?thesis
    proof (cases "k \<in> fst ` set src")
      case in_src: True
      then have "map_of (own (obj_at ?h2 t)) k = Some (getProp E h pp k)"
        using map_of_written[OF src, of "own (obj_at h1 t)" k] own2 by simp
      then show ?thesis by (simp add: True getProp_def)
    next
      case False
      then have "map_of (own (obj_at ?h2 t)) k = map_of (own (obj_at h1 t)) k"
        using map_of_written[OF src, of "own (obj_at h1 t)" k] own2 by simp
      then have "getProp E ?h2 (Ref t) k = getProp E h1 (Ref t) k"
        using inh2 by (simp add: getProp_def split: option.splits)
      then show ?thesis using old True by simp
    qed
  next
    case False
    have "getProp E ?h2 pp k = getProp E (h1 @ [ob]) pp k"
      using getProp_write_own[OF False] .
    also have "\<dots> = getProp E h1 pp k" using getProp_alloc[OF ins1] .
    also have "\<dots> = getProp E h pp k" using ex by (simp add: extends_def)
    finally show ?thesis .
  qed
  show ?thesis
    using ex len others set2 inh2 reads
    by (simp add: extends_def write_own_length)
qed

lemma rule_writes_keys:
  "fst ` set (written [] (rule_writes E d P q)) = set (passing E d P q)"
  using keys_written[of "[]" "rule_writes E d P q"] by (simp add: image_image)

lemma rule_writes_values:
  "\<forall>p\<in>set (written [] (rule_writes E d P q)). snd p = P (fst p)"
  by (rule values_written) simp


text \<open>Allocating the default target changes nothing the rules read.\<close>

lemma rule_of_alloc: "rule_of E h r \<noteq> None \<Longrightarrow> rule_of E (h @ [ob]) r = rule_of E h r"
proof (cases r)
  case (Ref a)
  assume "rule_of E h r \<noteq> None"
  then have "a < length h" using rule_of_in_store Ref by simp
  then show ?thesis by (simp add: Ref obj_at_alloc)
qed simp_all

lemma rules_of_alloc:
  "valid_shapes E h rs \<Longrightarrow> rules_of E (h @ [ob]) rs = rules_of E h rs"
  by (induction rs) (auto simp: valid_shapes_def rules_of_def map_filter_simps rule_of_alloc)

lemma valid_shapes_alloc:
  "valid_shapes E h rs \<Longrightarrow> valid_shapes E (h @ [ob]) rs"
  by (induction rs) (auto simp: valid_shapes_def rule_of_alloc)

lemma valid_shapes_not_fresh:
  "valid_shapes E h rs \<Longrightarrow> Ref (length h) \<notin> set rs"
  using rule_of_in_store[of E h "length h"] by (auto simp: valid_shapes_def list_all_iff)



section \<open>What a single rule does\<close>

text \<open>
  A turn on a rule of a valid shape that does not name \<^verbatim>\<open>__proto__\<close>, for a plain target:
  the messages are those of the specification, the target holds the names that pass with
  the provided values, and every other property of the target is as before.
\<close>

lemma rule_turn:
  assumes "rule_of E h r = Some q" and "''__proto__'' \<notin> set (names_of q)"
    and "in_store h pp" and "t < length h" and "plain (obj_at h t)"
  shows "fst (validate_item E V pp t h errs r)
           = Inr (errs @ rule_errors E (defaultValidation V) (getProp E h pp) q)"
    and "map_of (own (obj_at (snd (validate_item E V pp t h errs r)) t)) k
           = (if k \<in> set (passing E (defaultValidation V) (getProp E h pp) q)
              then Some (getProp E h pp k) else map_of (own (obj_at h t)) k)"
proof -
  let ?src = "written [] (rule_writes E (defaultValidation V) (getProp E h pp) q)"
  have item: "validate_item E V pp t h errs r
              = (Inr (errs @ rule_errors E (defaultValidation V) (getProp E h pp) q),
                 write_own (h @ [(new_object E)\<lparr>own := ?src\<rparr>]) t ?src)"
    using validate_item_rule[OF assms] .
  show "fst (validate_item E V pp t h errs r)
           = Inr (errs @ rule_errors E (defaultValidation V) (getProp E h pp) q)"
    using item by simp
  have vals: "\<forall>p\<in>set ?src. snd p = getProp E h pp (fst p)" by (rule rule_writes_values)
  show "map_of (own (obj_at (snd (validate_item E V pp t h errs r)) t)) k
           = (if k \<in> set (passing E (defaultValidation V) (getProp E h pp) q)
              then Some (getProp E h pp k) else map_of (own (obj_at h t)) k)"
    using item map_of_written[OF vals, of "own (obj_at h t)" k] assms(4)
      rule_writes_keys[of E "defaultValidation V" "getProp E h pp" q]
    by (simp add: write_own_own obj_at_alloc)
qed

text \<open>
  A non-empty string requirement is the rule object that holds the default validation
  for the name.
\<close>

lemma required_is_custom_with_default:
  "rule_errors E d P (Required n) = rule_errors E d P (Custom n d)"
  "passing E d P (Required n) = passing E d P (Custom n d)"
  by simp_all

section \<open>The duplicated merge on a plain target\<close>

lemma validate_item_once_rule:
  assumes "rule_of E h r = Some q" and "''__proto__'' \<notin> set (names_of q)"
    and "in_store h pp" and "t < length h" and "plain (obj_at h t)"
  shows "validate_item_once E V pp t h errs r = validate_item E V pp t h errs r"
proof -
  let ?d = "defaultValidation V"
  let ?src = "written [] (rule_writes E ?d (getProp E h pp) q)"
  let ?h1 = "h @ [(new_object E)\<lparr>own := ?src\<rparr>]"
  show ?thesis
  proof (cases r)
    case (Ref a)
    with assms(1) obtain k f where ob: "own (obj_at h a) = [(k, Fun f)]" and q: "q = Custom k f"
      by (auto split: list.splits jsval.splits prod.splits)
    have keys: "fst ` set ?src \<subseteq> set (names_of q)"
      using keys_written[of "[]" "rule_writes E ?d (getProp E h pp) q"]
      by (auto simp: q split: if_splits)
    have np: "''__proto__'' \<notin> fst ` set ?src" using keys assms(2) by auto
    have pl: "plain (obj_at ?h1 t)" using assms(4,5) by (simp add: obj_at_alloc)
    have once: "object_assign E ?h1 t ?src = (None, write_own ?h1 t ?src)"
      using object_assign_plain[OF pl np] .
    have loc: "own (obj_at ?h1 (length h)) = ?src" by (simp add: obj_at_fresh)
    have ev: "executeValidationFunction E h pp (Str k) (Fun f)
              = (Inr (rule_errors E ?d (getProp E h pp) q, length h), ?h1)"
      using executeValidationFunction_result[OF assms(3), of k E f ?d] assms(2)
      by (simp add: q)
    have one: "validate_item_once E V pp t h errs r
               = (Inr (errs @ rule_errors E ?d (getProp E h pp) q), write_own ?h1 t ?src)"
      using once loc ev
      by (simp add: Ref ob validate_item_once_def objectKeys_def getProp_def[of E h "Ref a"])
    show ?thesis
      using one validate_item_rule[OF assms, of V errs] by simp
  qed (use assms(1) in
        \<open>simp_all add: validate_item_once_def validate_item_def getProp_def split: if_splits\<close>)
qed

lemma validate_loop_once_eq:
  assumes "t < length h" and "plain (obj_at h t)" and "in_store h pp"
    and "Ref t \<notin> set rs"
    and "valid_shapes E h rs" and "no_proto_names E h rs"
    and "extends E h t pp h1"
  shows "validate_loop_once E V pp t h1 errs rs = validate_loop E V pp t h1 errs rs"
  using assms(4-7)
proof (induction rs arbitrary: h1 errs)
  case Nil
  then show ?case by simp
next
  case (Cons r rs)
  let ?d = "defaultValidation V"
  let ?P = "getProp E h pp"
  have rt: "r \<noteq> Ref t" and rest_t: "Ref t \<notin> set rs" using Cons.prems(1) by auto
  obtain q where q: "rule_of E h r = Some q" and rest_v: "valid_shapes E h rs"
    using Cons.prems(2) by (auto simp: valid_shapes_def)
  have np: "''__proto__'' \<notin> set (names_of q)" and rest_n: "no_proto_names E h rs"
    using Cons.prems(3) by (simp_all add: no_proto_names_def rules_of_Cons_Some[OF q])
  have ex: "extends E h t pp h1" using Cons.prems(4) .
  have q1: "rule_of E h1 r = Some q"
    using extends_rule_of[OF ex rt] q by simp
  have rd: "getProp E h1 pp = ?P" using extends_getProp[OF ex] .
  have t1: "t < length h1" using ex assms(1) by (simp add: extends_def)
  have pl1: "plain (obj_at h1 t)" using extends_plain[OF ex] assms(2) by simp
  have ins1: "in_store h1 pp" using extends_in_store[OF ex assms(3)] .
  let ?src = "written [] (rule_writes E ?d ?P q)"
  let ?h2 = "write_own (h1 @ [(new_object E)\<lparr>own := ?src\<rparr>]) t ?src"
  have item: "validate_item E V pp t h1 errs r = (Inr (errs @ rule_errors E ?d ?P q), ?h2)"
    using validate_item_rule[OF q1 np ins1 t1 pl1, of V errs] rd by simp
  have item_once: "validate_item_once E V pp t h1 errs r = validate_item E V pp t h1 errs r"
    using validate_item_once_rule[OF q1 np ins1 t1 pl1] .
  have vals: "\<forall>p\<in>set ?src. snd p = ?P (fst p)" by (rule rule_writes_values)
  have ex2: "extends E h t pp ?h2"
    using extends_step[OF ex assms(1) assms(3) vals] .
  show ?case
    using item item_once Cons.IH[OF rest_t rest_v rest_n ex2] by simp
qed

text \<open>
  For a plain target that is separate from the requirements, the code as written and
  the variant that merges once give the same result and leave the same store.
\<close>

lemma duplicate_merge_plain:
  assumes "truthy pp" and "in_store h pp"
    and "valid_shapes E h rs" and "no_proto_names E h rs"
    and "separate_target h rs tgt"
  shows "validate_once E V h pp (Arr rs) tgt = validate E V h pp (Arr rs) tgt"
proof -
  define t where "t = target_addr h tgt"
  define h0 where "h0 = (case tgt of None \<Rightarrow> h @ [new_object E] | Some a \<Rightarrow> h)"
  have t0: "t < length h0"
    using assms(5) by (cases tgt) (simp_all add: t_def h0_def target_addr_def separate_target_def)
  have pl0: "plain (obj_at h0 t)"
    using assms(5)
    by (cases tgt)
       (simp_all add: t_def h0_def target_addr_def separate_target_def obj_at_fresh
          plain_new_object)
  have ins0: "in_store h0 pp"
    using assms(2) by (cases tgt; cases pp) (simp_all add: h0_def in_store_def)
  have sep0: "Ref t \<notin> set rs"
    using assms(5) valid_shapes_not_fresh[OF assms(3)]
    by (cases tgt) (simp_all add: t_def target_addr_def separate_target_def)
  have rules0: "rules_of E h0 rs = rules_of E h rs"
    using rules_of_alloc[OF assms(3)] by (cases tgt) (simp_all add: h0_def)
  have shapes0: "valid_shapes E h0 rs"
    using valid_shapes_alloc[OF assms(3)] assms(3) by (cases tgt) (simp_all add: h0_def)
  have names0: "no_proto_names E h0 rs"
    using assms(4) rules0 by (simp add: no_proto_names_def)
  have "validate_loop_once E V pp t h0 [] rs = validate_loop E V pp t h0 [] rs"
    using validate_loop_once_eq[OF t0 pl0 ins0 sep0 shapes0 names0 extends_refl] .
  then show ?thesis
    by (cases tgt)
       (simp_all add: validate_once_def validate_def t_def h0_def target_addr_def Let_def)
qed

section \<open>The examples, evaluated\<close>

lemmas eval_defs =
  validate_def validate_item_def executeValidationFunction_def
  performLogicalOrParamValidation_def objectKeys_def getProp_def obj_at_def
  put_def set_prop_def comes_before_def array_index_def dec_to_nat_def
  digit_chars_def nat_to_dec.simps join_errors_def defaultValidation_def
  example_env_def default_validator_def example_setter_def new_object_def literal_def
  labelled_def std_props_def quote_def Let_def

lemmas spec_defs =
  all_errors_def all_passing_def rules_of_def map_filter_simps valid_shapes_def
  no_proto_names_def separate_target_def in_store_def plain_def one_of_message_def
  invalid_message_def







lemma passing_all_errors:
  "all_errors example_env default_validator example_store (Ref 0) passing_requirements = []"
  by (simp add: spec_defs passing_requirements_def example_store_def eval_defs)


section \<open>Entry contracts of validate\<close>

text \<open>
  C6: a call whose \<^verbatim>\<open>paramsProvided\<close> is missing or falsy raises a
  \<^verbatim>\<open>ParameterValidationError\<close> with the message \<^verbatim>\<open>A paramsProvided object is required.\<close>;
  a call whose \<^verbatim>\<open>paramsProvided\<close> is present and whose \<^verbatim>\<open>paramRequirements\<close> is not an
  array raises a plain \<^verbatim>\<open>Error\<close>, not a \<^verbatim>\<open>ParameterValidationError\<close>, and no requirement
  is evaluated: the store is the one of the entry (with the default target allocated
  when the caller gave none).
\<close>

theorem validate_entry_contracts:
  "(\<not> truthy pp \<longrightarrow>
      fst (validate E V h pp reqs tgt)
        = Inl (ParameterValidationError ''A paramsProvided object is required.''))
   \<and> (truthy pp \<and> \<not> isArray reqs \<longrightarrow>
        validate E V h pp reqs tgt
          = (Inl (Error ''paramRequirements must be an array.''),
             case tgt of None \<Rightarrow> h @ [new_object E] | Some a \<Rightarrow> h)
        \<and> error_name (Error ''paramRequirements must be an array.'')
            \<noteq> ''ParameterValidationError'')"
  by (cases reqs) (simp_all add: validate_def Let_def)

theorem validate_entry_contracts_witness:
  "\<not> truthy Undefined
   \<and> fst (validate example_env default_validator [] Undefined (Arr [Str ''name'']) None)
       = Inl (ParameterValidationError ''A paramsProvided object is required.'')
   \<and> truthy (Ref 0) \<and> \<not> isArray (Str ''name'')
   \<and> validate example_env default_validator [literal [(''name'', Num 1)]] (Ref 0)
         (Str ''name'') (Some 0)
       = (Inl (Error ''paramRequirements must be an array.''), [literal [(''name'', Num 1)]])"
  using validate_entry_contracts [where pp = Undefined and E = example_env
          and V = default_validator and h = "[]" and reqs = "Arr [Str ''name'']" and tgt = None]
        validate_entry_contracts [where pp = "Ref 0" and E = example_env
          and V = default_validator and h = "[literal [(''name'', Num 1)]]"
          and reqs = "Str ''name''" and tgt = "Some 0"]
  by simp

section \<open>Construction\<close>

text \<open>
  Against C3 as it is written: the constructor raises its own
  \<^verbatim>\<open>ParameterValidationError\<close>, not a plain \<^verbatim>\<open>Error\<close>, when \<^verbatim>\<open>defaultValidation\<close> is present
  and not a function: here for the options \<^verbatim>\<open>{defaultValidation: 5}\<close>.
\<close>

theorem constructor_rejects_with_validation_error:
  "new_ParameterValidator example_env [literal [(''defaultValidation'', Num 5)]] (Ref 0)
     = Inl (ParameterValidationError
              ''The optional defaultValidation parameter provided is not a function.'')
   \<and> error_name (ParameterValidationError
              ''The optional defaultValidation parameter provided is not a function.'')
       \<noteq> ''Error''"
  by (simp add: new_ParameterValidator_def getProp_def obj_at_def literal_def)

text \<open>
  C3, as the code has it: constructing a validator with options whose
  \<^verbatim>\<open>defaultValidation\<close> is present and not a function raises a \<^verbatim>\<open>ParameterValidationError\<close>
  with the message \<^verbatim>\<open>The optional defaultValidation parameter provided is not a function.\<close>;
  with no options (or falsy ones), or without a \<^verbatim>\<open>defaultValidation\<close>, construction succeeds
  and the default validation is \<^verbatim>\<open>isDefined\<close>; with a function as \<^verbatim>\<open>defaultValidation\<close>
  construction succeeds and that function is the default validation.
\<close>

theorem constructor_contract:
  "(truthy options
      \<and> getProp E h options ''defaultValidation'' \<noteq> Undefined
      \<and> typeOf (getProp E h options ''defaultValidation'') \<noteq> ''function'' \<longrightarrow>
        new_ParameterValidator E h options
          = Inl (ParameterValidationError
                   ''The optional defaultValidation parameter provided is not a function.''))
   \<and> (\<not> truthy options \<or> getProp E h options ''defaultValidation'' = Undefined \<longrightarrow>
        new_ParameterValidator E h options = Inr \<lparr>priv_defaultValidation = None\<rparr>
        \<and> defaultValidation \<lparr>priv_defaultValidation = None\<rparr> = IsDefined)
   \<and> (truthy options \<and> getProp E h options ''defaultValidation'' = Fun f \<longrightarrow>
        new_ParameterValidator E h options = Inr \<lparr>priv_defaultValidation = Some f\<rparr>
        \<and> defaultValidation \<lparr>priv_defaultValidation = Some f\<rparr> = f)"
  by (auto simp: new_ParameterValidator_def defaultValidation_def Let_def)

theorem constructor_contract_witness:
  "new_ParameterValidator example_env [literal [(''defaultValidation'', Null)]] (Ref 0)
     = Inl (ParameterValidationError
              ''The optional defaultValidation parameter provided is not a function.'')
   \<and> new_ParameterValidator example_env [] Undefined = Inr \<lparr>priv_defaultValidation = None\<rparr>
   \<and> new_ParameterValidator example_env [literal [(''defaultValidation'', Fun (User 1))]] (Ref 0)
       = Inr \<lparr>priv_defaultValidation = Some (User 1)\<rparr>
   \<and> defaultValidation \<lparr>priv_defaultValidation = Some (User 1)\<rparr> = User 1"
  using constructor_contract [where E = example_env
          and h = "[literal [(''defaultValidation'', Null)]]" and options = "Ref 0"]
        constructor_contract [where E = example_env and h = "[]" and options = Undefined]
        constructor_contract [where E = example_env
          and h = "[literal [(''defaultValidation'', Fun (User 1))]]"
          and options = "Ref 0" and f = "User 1"]
  by (simp add: getProp_def obj_at_def literal_def)

section \<open>Items of no valid shape\<close>

text \<open>
  C2: an empty object, an empty array and \<^verbatim>\<open>null\<close> as requirement items are not ignored.
  The second branch tests \<^verbatim>\<open>Object.keys(paramRequirement)\<close>, an array and so always true,
  where the first branch tests \<^verbatim>\<open>paramRequirement.length\<close>: the empty object and the empty
  array reach \<^verbatim>\<open>_executeValidationFunction\<close> with the name \<^verbatim>\<open>undefined\<close> and no function, which
  raises a plain \<^verbatim>\<open>Error\<close>, and \<^verbatim>\<open>Object.keys(null)\<close> raises a \<^verbatim>\<open>TypeError\<close>. Items of
  another type than \<^verbatim>\<open>object\<close>, and the empty string, are ignored (\<open>validate_item_ignored\<close>).
\<close>

theorem empty_rules_raise:
  "fst (validate E V [literal [(''a'', Num 1)], literal []] (Ref 0) (Arr [Ref 1]) None)
     = Inl (Error ''A paramRequirement value provided for the parameter undefined is not a function.'')
   \<and> fst (validate example_env V [literal [(''a'', Num 1)]] (Ref 0) (Arr [Arr []]) None)
     = Inl (Error ''A paramRequirement value provided for the parameter undefined is not a function.'')
   \<and> fst (validate E V [literal [(''a'', Num 1)]] (Ref 0) (Arr [Null]) None) = Inl TypeError"
  by (simp add: validate_def validate_item_def objectKeys_def obj_at_def getProp_def
        executeValidationFunction_def array_index_def dec_to_nat_def digit_chars_def
        nat_to_dec.simps literal_def std_props_def example_env_def Let_def)

section \<open>Single requirements\<close>

text \<open>
  C4: a name of a group that passes the default validation is not always merged, and the
  group can be reported although a name passes. For the provided values
  \<^verbatim>\<open>JSON.parse('{"__proto__": 5, "a": 1}')\<close> the value of \<^verbatim>\<open>__proto__\<close> is 5 and passes;
  the assignment \<^verbatim>\<open>extractedParams['__proto__'] = 5\<close> in the evaluator reaches the setter of
  \<^verbatim>\<open>Object.prototype\<close> and makes no property. So the group \<^verbatim>\<open>['__proto__']\<close> raises the
  error of a group of which nothing was provided, and the group \<^verbatim>\<open>['__proto__', 'a']\<close>
  extracts \<^verbatim>\<open>a\<close> alone.
\<close>

theorem group_loses_proto_parameter:
  "getProp example_env proto_store (Ref 0) ''__proto__'' = Num 5
   \<and> truthy (call example_env (defaultValidation default_validator) (Num 5))
   \<and> fst (validate example_env default_validator proto_store (Ref 0)
            (Arr [Arr [Str ''__proto__'']]) None)
       = Inl (ParameterValidationError
                (''One of the following parameters must be included: ''
                 @ quote @ ''__proto__'' @ quote @ ''.''))
   \<and> fst (validate example_env default_validator proto_store (Ref 0)
            (Arr [Arr [Str ''__proto__'', Str ''a'']]) None) = Inr (Ref 4)
   \<and> own (obj_at (snd (validate example_env default_validator proto_store (Ref 0)
                         (Arr [Arr [Str ''__proto__'', Str ''a'']]) None)) 4)
       = [(''a'', Num 1)]"
  by (simp add: proto_store_def eval_defs)

text \<open>
  C5: a parameter whose predicate returns \<^verbatim>\<open>true\<close> is not always merged. For the same
  provided values, the rule object \<^verbatim>\<open>{['__proto__']: v => true}\<close> and the required name
  \<^verbatim>\<open>'__proto__'\<close> both pass and raise nothing, and the object returned holds no property:
  the assignment \<^verbatim>\<open>extractedParams[paramName] = paramsProvided[paramName]\<close> in the
  evaluator makes none. Beside it the rule object \<^verbatim>\<open>{a: v => true}\<close> and the required name
  \<^verbatim>\<open>'a'\<close>, whose parameter is merged.
\<close>

theorem predicate_rule_loses_proto_parameter:
  "call example_env (User 0) (getProp example_env proto_store (Ref 0) ''__proto__'') = Bool True
   \<and> fst (validate example_env default_validator proto_store (Ref 0) (Arr [Ref 1]) None)
       = Inr (Ref 4)
   \<and> own (obj_at (snd (validate example_env default_validator proto_store (Ref 0)
                         (Arr [Ref 1]) None)) 4) = []
   \<and> call example_env (defaultValidation default_validator)
         (getProp example_env proto_store (Ref 0) ''__proto__'') = Bool True
   \<and> fst (validate example_env default_validator proto_store (Ref 0)
            (Arr [Str ''__proto__'']) None) = Inr (Ref 4)
   \<and> own (obj_at (snd (validate example_env default_validator proto_store (Ref 0)
                         (Arr [Str ''__proto__'']) None)) 4) = []
   \<and> own (obj_at (snd (validate example_env default_validator proto_store (Ref 0)
                         (Arr [Ref 2]) None)) 4) = [(''a'', Num 1)]
   \<and> own (obj_at (snd (validate example_env default_validator proto_store (Ref 0)
                         (Arr [Str ''a'']) None)) 4) = [(''a'', Num 1)]"
  by (simp add: proto_store_def eval_defs)

section \<open>The duplicated merge\<close>

text \<open>
  C9: the second \<^verbatim>\<open>Object.assign\<close> of the branch for a rule object is not always without
  effect. \<^verbatim>\<open>Object.assign\<close> assigns, so on a target with a setter each call runs the
  setter. For the provided values \<^verbatim>\<open>{label: 'x'}\<close>, the rule \<^verbatim>\<open>{label: v => true}\<close> and as
  target a new instance of the class whose setter \<^verbatim>\<open>label\<close> raises once the label is set,
  the code as written raises \<^verbatim>\<open>Error('label is already set')\<close> on the second call, and the
  variant that merges once returns the target with the label set.
\<close>

theorem duplicate_merge_runs_setter_twice:
  "fst (validate example_env default_validator label_store (Ref 0) (Arr [Ref 1]) (Some 2))
     = Inl (Error ''label is already set'')
   \<and> fst (validate_once example_env default_validator label_store (Ref 0) (Arr [Ref 1]) (Some 2))
     = Inr (Ref 2)
   \<and> own (obj_at (snd (validate_once example_env default_validator label_store (Ref 0)
                         (Arr [Ref 1]) (Some 2))) 2)
     = [(''_label'', Str ''x'')]"
  by (simp add: label_store_def validate_once_def validate_item_once_def eval_defs)

section \<open>The whole call\<close>










section \<open>The promise of validateAsync\<close>






end
